theory Spec2Isabelle
  imports Complex_Main "HOL-Library.Log_Nat"
begin

section \<open>Python floats\<close>

text \<open>
  A Python \<open>float\<close> is an IEEE 754 binary64 value: a finite number, one of the two
  infinities, or a NaN.  Finite values are carried as the real number they denote (the sign
  of a zero is dropped: no comparison of the program sees it).  An operation whose exact
  result need not be a binary64 value rounds it to the nearest one, ties to even
  (\<open>py_of_real\<close>), and overflows to an infinity.
\<close>

datatype pyfloat = Fin real | PInf | NInf | NaN

definition pow2 :: "int \<Rightarrow> real" where
  "pow2 e = (if 0 \<le> e then 2 ^ nat e else 1 / 2 ^ nat (- e))"

text \<open>For \<open>0 < x\<close>, \<open>binade x\<close> is the exponent \<open>e\<close> with \<open>2^e \<le> x < 2^(e+1)\<close>.\<close>

definition binade :: "real \<Rightarrow> int" where
  "binade x = (if 1 \<le> x then int (floorlog 2 (nat \<lfloor>x\<rfloor>)) - 1
               else - int (floorlog 2 (nat (\<lceil>1 / x\<rceil> - 1))))"

text \<open>Rounding to the nearest integer, a tie going to the even neighbour.\<close>

definition rhe :: "real \<Rightarrow> int" where
  "rhe x = (let f = \<lfloor>x\<rfloor>; d = x - of_int f in
            if d < 1 / 2 then f else if 1 / 2 < d then f + 1
            else if even f then f else f + 1)"

text \<open>
  The spacing of binary64 values around \<open>x > 0\<close>: 53 significant bits, and the fixed
  spacing \<open>2^-1074\<close> of the subnormal range below \<open>2^-1022\<close>.
\<close>

definition quantum :: "real \<Rightarrow> real" where
  "quantum x = pow2 (max (binade x) (- 1022) - 52)"

definition py_of_real :: "real \<Rightarrow> pyfloat" where
  "py_of_real x = (if x = 0 then Fin 0 else
     let q = quantum \<bar>x\<bar>; y = of_int (rhe (\<bar>x\<bar> / q)) * q in
     if pow2 1024 \<le> y then (if 0 < x then PInf else NInf) else Fin (sgn x * y))"

text \<open>The reals that are binary64 values.\<close>

definition is_double :: "real \<Rightarrow> bool" where
  "is_double x = (py_of_real x = Fin x)"

subsection \<open>Comparisons and arithmetic\<close>

definition py_eq :: "pyfloat \<Rightarrow> pyfloat \<Rightarrow> bool" where
  "py_eq a b = (a \<noteq> NaN \<and> a = b)"

definition py_lt :: "pyfloat \<Rightarrow> pyfloat \<Rightarrow> bool" where
  "py_lt a b = (case (a, b) of
       (Fin x, Fin y) \<Rightarrow> x < y
     | (Fin x, PInf) \<Rightarrow> True
     | (NInf, Fin y) \<Rightarrow> True
     | (NInf, PInf) \<Rightarrow> True
     | _ \<Rightarrow> False)"

definition py_le :: "pyfloat \<Rightarrow> pyfloat \<Rightarrow> bool" where
  "py_le a b = (py_lt a b \<or> py_eq a b)"

definition py_gt :: "pyfloat \<Rightarrow> pyfloat \<Rightarrow> bool" where
  "py_gt a b = py_lt b a"

definition py_isinf :: "pyfloat \<Rightarrow> bool" where
  "py_isinf a = (a = PInf \<or> a = NInf)"

definition py_neg :: "pyfloat \<Rightarrow> pyfloat" where
  "py_neg a = (case a of Fin x \<Rightarrow> Fin (- x) | PInf \<Rightarrow> NInf | NInf \<Rightarrow> PInf | NaN \<Rightarrow> NaN)"

definition py_abs :: "pyfloat \<Rightarrow> pyfloat" where
  "py_abs a = (case a of Fin x \<Rightarrow> Fin \<bar>x\<bar> | PInf \<Rightarrow> PInf | NInf \<Rightarrow> PInf | NaN \<Rightarrow> NaN)"

definition py_sub :: "pyfloat \<Rightarrow> pyfloat \<Rightarrow> pyfloat" where
  "py_sub a b = (case (a, b) of
       (Fin x, Fin y) \<Rightarrow> py_of_real (x - y)
     | (NaN, _) \<Rightarrow> NaN
     | (_, NaN) \<Rightarrow> NaN
     | (PInf, PInf) \<Rightarrow> NaN
     | (NInf, NInf) \<Rightarrow> NaN
     | (PInf, _) \<Rightarrow> PInf
     | (NInf, _) \<Rightarrow> NInf
     | (Fin x, PInf) \<Rightarrow> NInf
     | (Fin x, NInf) \<Rightarrow> PInf)"

definition py_mul :: "pyfloat \<Rightarrow> pyfloat \<Rightarrow> pyfloat" where
  "py_mul a b = (case (a, b) of
       (Fin x, Fin y) \<Rightarrow> py_of_real (x * y)
     | (NaN, _) \<Rightarrow> NaN
     | (_, NaN) \<Rightarrow> NaN
     | (Fin x, i) \<Rightarrow> (if x = 0 then NaN else if 0 < x then i else py_neg i)
     | (i, Fin y) \<Rightarrow> (if y = 0 then NaN else if 0 < y then i else py_neg i)
     | (i, j) \<Rightarrow> (if i = j then PInf else NInf))"

text \<open>
  \<open>a / d\<close> for a float literal \<open>d\<close> that is finite and not zero (the program divides by
  \<open>2.0\<close> and by \<open>0.5\<close> only, so \<open>ZeroDivisionError\<close> has no branch here).
\<close>

definition py_div_lit :: "pyfloat \<Rightarrow> real \<Rightarrow> pyfloat" where
  "py_div_lit a d = (case a of
       Fin x \<Rightarrow> py_of_real (x / d)
     | NaN \<Rightarrow> NaN
     | i \<Rightarrow> (if 0 < d then i else py_neg i))"

text \<open>
  \<open>round(x, ndigits)\<close> on a float, for the small non-negative \<open>ndigits\<close> used here:
  the exact value of \<open>x\<close> is rounded half-even to \<open>ndigits\<close> decimals, and that decimal
  is converted back to the nearest float.  Infinities and NaN come back unchanged.
\<close>

definition py_round :: "pyfloat \<Rightarrow> nat \<Rightarrow> pyfloat" where
  "py_round a ndigits = (case a of
       Fin x \<Rightarrow> py_of_real (of_int (rhe (x * 10 ^ ndigits)) / 10 ^ ndigits)
     | i \<Rightarrow> i)"

text \<open>
  \<open>math.isclose(a, b, rel_tol=r, abs_tol=t)\<close>, as the C implementation computes it
  (both tolerances are non-negative literals in this program).
\<close>

definition py_isclose :: "pyfloat \<Rightarrow> pyfloat \<Rightarrow> pyfloat \<Rightarrow> pyfloat \<Rightarrow> bool" where
  "py_isclose a b rel_tol abs_tol =
     (if py_eq a b then True
      else if py_isinf a \<or> py_isinf b then False
      else let diff = py_abs (py_sub b a) in
           py_le diff (py_abs (py_mul rel_tol b))
         \<or> py_le diff (py_abs (py_mul rel_tol a))
         \<or> py_le diff abs_tol)"

section \<open>Tempo Decomposer\<close>

text \<open>
  The two \<open>while\<close> loops of \<open>build_atempo_expr\<close>.  Neither has a bound in the
  source, so each is a partial function: \<open>None\<close> is a loop that never ends.
\<close>

partial_function (option)
  halve_while :: "pyfloat list \<Rightarrow> pyfloat \<Rightarrow> (pyfloat list \<times> pyfloat) option" where
  "halve_while factors remaining =
     (if py_gt remaining (Fin 2)
      then halve_while (factors @ [Fin 2]) (py_div_lit remaining 2)
      else Some (factors, remaining))"

partial_function (option)
  double_while :: "pyfloat list \<Rightarrow> pyfloat \<Rightarrow> (pyfloat list \<times> pyfloat) option" where
  "double_while factors remaining =
     (if py_lt remaining (Fin (1 / 2))
      then double_while (factors @ [Fin (1 / 2)]) (py_div_lit remaining (1 / 2))
      else Some (factors, remaining))"

text \<open>The float literal \<open>1e-3\<close>.\<close>

definition lit_1e_3 :: pyfloat where
  "lit_1e_3 = py_of_real (1 / 1000)"

text \<open>
  The list \<open>factors\<close> as it stands at the \<open>return\<close> of \<open>build_atempo_expr\<close>.
\<close>

definition atempo_factors :: "pyfloat \<Rightarrow> pyfloat list option" where
  "atempo_factors speed0 =
     (let speed = (if py_le speed0 (Fin 0) then Fin 1 else speed0) in
      case halve_while [] speed of
        None \<Rightarrow> None
      | Some (factors, remaining) \<Rightarrow>
          (case double_while factors remaining of
             None \<Rightarrow> None
           | Some (factors, remaining) \<Rightarrow>
               let remaining = py_round remaining 3 in
               Some (if \<not> py_isclose remaining (Fin 1) lit_1e_3 lit_1e_3
                     then factors @ [remaining] else factors)))"

text \<open>\<open>sep.join(xs)\<close>\<close>

fun join :: "string \<Rightarrow> string list \<Rightarrow> string" where
  "join sep [] = []"
| "join sep [x] = x"
| "join sep (x # y # ys) = x @ sep @ join sep (y # ys)"

text \<open>
  \<open>fmt\<close> is the text an f-string gives a float (\<open>repr\<close>); it is a parameter of the
  model.
\<close>

definition build_atempo_expr :: "(pyfloat \<Rightarrow> string) \<Rightarrow> pyfloat \<Rightarrow> string option" where
  "build_atempo_expr fmt speed =
     map_option
       (\<lambda>factors. if factors \<noteq> []
                  then join '','' (map (\<lambda>f. ''atempo='' @ fmt f) factors)
                  else ''atempo=1.0'')
       (atempo_factors speed)"

text \<open>
  The tempo stages named by the returned expression: the collected factors, or the single
  stage \<open>1.0\<close> of the fallback text.
\<close>

definition atempo_stages :: "pyfloat \<Rightarrow> pyfloat list option" where
  "atempo_stages speed =
     map_option (\<lambda>factors. if factors \<noteq> [] then factors else [Fin 1]) (atempo_factors speed)"

section \<open>Strings and exceptions\<close>

text \<open>
  A Python \<open>str\<close> is modelled as a \<open>string\<close>; a character outside ASCII stands as the
  bytes of its UTF-8 encoding and is opaque to the operations below (it is neither white
  space nor a digit and has no other case).  Their behaviour on ASCII text is that of Python.

  The exceptions the program can meet, all of them subclasses of \<open>Exception\<close>, each with
  the text \<open>str(e)\<close> gives: its message, and for a \<open>KeyError\<close> the \<open>repr\<close> of the
  missing key (the key between single quotes, for the keys met here).
\<close>

datatype exn =
    ValueError string
  | KeyError string
  | TypeError string
  | AttributeError string
  | OSError string
  | RuntimeError string

fun exn_str :: "exn \<Rightarrow> string" where
  "exn_str (ValueError m) = m"
| "exn_str (KeyError k) = [CHR 0x27] @ k @ [CHR 0x27]"
| "exn_str (TypeError m) = m"
| "exn_str (AttributeError m) = m"
| "exn_str (OSError m) = m"
| "exn_str (RuntimeError m) = m"

definition is_digit :: "char \<Rightarrow> bool" where
  "is_digit c = (c \<in> set ''0123456789'')"

definition digit_val :: "char \<Rightarrow> nat" where
  "digit_val c = of_char c - 48"

definition digits_val :: "string \<Rightarrow> nat" where
  "digits_val ds = foldl (\<lambda>n c. 10 * n + digit_val c) 0 ds"

text \<open>White space for \<open>str.strip()\<close>, and the narrower set the float parser skips.\<close>

definition str_isspace :: "char \<Rightarrow> bool" where
  "str_isspace c = (of_char c \<in> {9, 10, 11, 12, 13, 28, 29, 30, 31, 32 :: nat})"

definition c_isspace :: "char \<Rightarrow> bool" where
  "c_isspace c = (of_char c \<in> {9, 10, 11, 12, 13, 32 :: nat})"

definition strip_with :: "(char \<Rightarrow> bool) \<Rightarrow> string \<Rightarrow> string" where
  "strip_with sp s = rev (dropWhile sp (rev (dropWhile sp s)))"

definition str_strip :: "string \<Rightarrow> string" where
  "str_strip s = strip_with str_isspace s"

definition lower_char :: "char \<Rightarrow> char" where
  "lower_char c =
     (case map_of (zip ''ABCDEFGHIJKLMNOPQRSTUVWXYZ'' ''abcdefghijklmnopqrstuvwxyz'') c of
        Some d \<Rightarrow> d
      | None \<Rightarrow> c)"

definition str_lower :: "string \<Rightarrow> string" where
  "str_lower s = map lower_char s"

text \<open>\<open>s.replace(c, "")\<close> for a one-character \<open>c\<close>.\<close>

definition str_remove :: "char \<Rightarrow> string \<Rightarrow> string" where
  "str_remove c s = filter (\<lambda>d. d \<noteq> c) s"




text \<open>\<open>str(n)\<close> for a non-negative integer.\<close>

fun str_of_nat :: "nat \<Rightarrow> string" where
  "str_of_nat n = (if n < 10 then [''0123456789'' ! n]
                   else str_of_nat (n div 10) @ [''0123456789'' ! (n mod 10)])"

declare str_of_nat.simps [simp del]

text \<open>\<open>os.path.basename\<close> and \<open>os.path.dirname\<close>, in their POSIX form.\<close>

definition basename :: "string \<Rightarrow> string" where
  "basename p = rev (takeWhile (\<lambda>c. c \<noteq> CHR ''/'') (rev p))"

definition dirname :: "string \<Rightarrow> string" where
  "dirname p =
     (let head = rev (dropWhile (\<lambda>c. c \<noteq> CHR ''/'') (rev p)) in
      if head \<noteq> [] \<and> \<not> list_all (\<lambda>c. c = CHR ''/'') head
      then rev (dropWhile (\<lambda>c. c = CHR ''/'') (rev head))
      else head)"

section \<open>Speed resolution\<close>

text \<open>
  \<open>float(s)\<close> on a string: white space is stripped, an underscore is accepted only between
  two digits, and what is left is an optional sign followed by \<open>inf\<close>, \<open>infinity\<close> or
  \<open>nan\<close> in any case, or by a decimal numeral with an optional exponent.  The numeral's
  exact value is rounded to the nearest float.  Anything else raises \<open>ValueError\<close>.
\<close>

fun underscores_ok :: "char \<Rightarrow> string \<Rightarrow> bool" where
  "underscores_ok prev [] = (prev \<noteq> CHR ''_'')"
| "underscores_ok prev (c # cs) =
     ((if c = CHR ''_'' then is_digit prev else (prev = CHR ''_'' \<longrightarrow> is_digit c))
      \<and> underscores_ok c cs)"

definition split_sign :: "string \<Rightarrow> bool \<times> string" where
  "split_sign s = (case s of
       c # cs \<Rightarrow> if c = CHR ''-'' then (True, cs) else if c = CHR ''+'' then (False, cs)
                 else (False, s)
     | [] \<Rightarrow> (False, []))"

definition parse_exponent :: "string \<Rightarrow> int option" where
  "parse_exponent s =
     (let (neg, ds) = split_sign s in
      if ds \<noteq> [] \<and> list_all is_digit ds
      then Some (if neg then - int (digits_val ds) else int (digits_val ds))
      else None)"

definition pow10 :: "int \<Rightarrow> real" where
  "pow10 e = (if 0 \<le> e then 10 ^ nat e else 1 / 10 ^ nat (- e))"

definition parse_decimal :: "string \<Rightarrow> real option" where
  "parse_decimal s =
     (let ip = takeWhile is_digit s;
          r1 = dropWhile is_digit s;
          (fp, r2) = (case r1 of
                        c # cs \<Rightarrow> if c = CHR ''.''
                                  then (takeWhile is_digit cs, dropWhile is_digit cs)
                                  else ([], r1)
                      | [] \<Rightarrow> ([], []));
          mant = real (digits_val (ip @ fp)) / 10 ^ length fp
      in if ip = [] \<and> fp = [] then None
         else (case r2 of
                 [] \<Rightarrow> Some mant
               | c # cs \<Rightarrow>
                   if c = CHR ''e'' \<or> c = CHR ''E''
                   then map_option (\<lambda>e. mant * pow10 e) (parse_exponent cs)
                   else None))"

definition float_error :: exn where
  "float_error = ValueError ''could not convert string to float''"

definition py_float :: "string \<Rightarrow> exn + pyfloat" where
  "py_float s =
     (let t = strip_with c_isspace s in
      if \<not> underscores_ok (CHR 0x00) t then Inl float_error
      else let (neg, body) = split_sign (str_remove (CHR ''_'') t) in
        if str_lower body = ''inf'' \<or> str_lower body = ''infinity''
        then Inr (if neg then NInf else PInf)
        else if str_lower body = ''nan'' then Inr NaN
        else (case parse_decimal body of
                None \<Rightarrow> Inl float_error
              | Some v \<Rightarrow> Inr (py_of_real (if neg then - v else v))))"

text \<open>The last entry of \<open>SPEED_PRESETS\<close>: the word Custom followed by U+2026.\<close>

definition custom_label :: string where
  "custom_label = ''Custom'' @ [CHR 0xE2, CHR 0x80, CHR 0xA6]"

definition parse_speed :: "string \<Rightarrow> string \<Rightarrow> exn + pyfloat" where
  "parse_speed preset custom =
     (if preset = custom_label
      then (case py_float (str_remove (CHR ''x'') (str_lower (str_strip custom))) of
              Inr v \<Rightarrow> Inr (if py_gt v (Fin 0) then v else Fin 1)
            | Inl e \<Rightarrow> Inr (Fin 1))
      else py_float (str_remove (CHR ''x'') preset))"

section \<open>Command Builder\<close>

definition ensure_even_dimensions_filter :: string where
  "ensure_even_dimensions_filter = ''scale=trunc(iw/2)*2:trunc(ih/2)*2,fps=30''"

text \<open>The float literal \<open>1e-6\<close>.\<close>

definition lit_1e_6 :: pyfloat where
  "lit_1e_6 = py_of_real (1 / 1000000)"

text \<open>
  \<open>math.isclose(speed, 1.0, rel_tol=1e-6)\<close>; the absolute tolerance has its default
  \<open>0.0\<close>.
\<close>

definition speed_is_one :: "pyfloat \<Rightarrow> bool" where
  "speed_is_one speed = py_isclose speed (Fin 1) lit_1e_6 (Fin 0)"

text \<open>The value \<open>vf\<close> of \<open>build_ffmpeg_cmd\<close>.\<close>

definition video_filter :: "(pyfloat \<Rightarrow> string) \<Rightarrow> pyfloat \<Rightarrow> string" where
  "video_filter fmt speed =
     join '','' ((if \<not> speed_is_one speed then [''setpts=PTS/'' @ fmt speed] else [])
               @ [ensure_even_dimensions_filter])"

text \<open>\<open>d[k]\<close> on a dictionary of strings.\<close>

definition dict_item :: "(string \<rightharpoonup> string) \<Rightarrow> string \<Rightarrow> exn + string" where
  "dict_item d k = (case d k of None \<Rightarrow> Inl (KeyError k) | Some v \<Rightarrow> Inr v)"

definition PROFILES :: "string \<rightharpoonup> (string \<rightharpoonup> string)" where
  "PROFILES = map_of
     [(''Most Compatible (Baseline L3.1, 30fps)'',
         map_of [(''profile'', ''baseline''), (''level'', ''3.1''),
                 (''preset'', ''veryfast''), (''crf'', ''20'')]),
      (''Balanced (Main L4.0, 30fps)'',
         map_of [(''profile'', ''main''), (''level'', ''4.0''),
                 (''preset'', ''faster''), (''crf'', ''20'')]),
      (''High Quality (High L4.1, 30fps)'',
         map_of [(''profile'', ''high''), (''level'', ''4.1''),
                 (''preset'', ''fast''), (''crf'', ''18'')])]"

definition silence_args :: "string list" where
  "silence_args =
     [''-f'', ''lavfi'', ''-t'', ''99999'', ''-i'',
      ''anullsrc=channel_layout=stereo:sample_rate=48000'',
      ''-shortest'',
      ''-c:a'', ''aac'', ''-b:a'', ''128k'', ''-ar'', ''48000'', ''-ac'', ''2'',
      ''-map'', ''0:v:0'', ''-map'', ''1:a:0'']"

definition aac_args :: "string list" where
  "aac_args = [''-c:a'', ''aac'', ''-b:a'', ''128k'', ''-ar'', ''48000'', ''-ac'', ''2'']"

text \<open>
  The result is \<open>None\<close> when the call never returns (the tempo decomposition of the
  audio branch), \<open>Some (Inl e)\<close> when it raises (a key missing from the profile, looked
  up while the list \<open>base\<close> is built), \<open>Some (Inr cmd)\<close> when it returns the list.
\<close>

definition build_ffmpeg_cmd ::
  "(pyfloat \<Rightarrow> string) \<Rightarrow> string \<Rightarrow> string \<Rightarrow> (string \<rightharpoonup> string) \<Rightarrow> pyfloat \<Rightarrow> bool \<Rightarrow> bool
     \<Rightarrow> (exn + string list) option" where
  "build_ffmpeg_cmd fmt inp outp profile_cfg speed loud_norm add_silence =
     (let vf = video_filter fmt speed in
      case dict_item profile_cfg ''profile'' of Inl e \<Rightarrow> Some (Inl e) | Inr prof \<Rightarrow>
     (case dict_item profile_cfg ''level'' of Inl e \<Rightarrow> Some (Inl e) | Inr level \<Rightarrow>
     (case dict_item profile_cfg ''preset'' of Inl e \<Rightarrow> Some (Inl e) | Inr preset \<Rightarrow>
     (case dict_item profile_cfg ''crf'' of Inl e \<Rightarrow> Some (Inl e) | Inr crf \<Rightarrow>
     (let base =
        [''ffmpeg'', ''-y'',
         ''-i'', inp,
         ''-map_metadata'', ''-1'',
         ''-movflags'', ''+faststart'',
         ''-vsync'', ''vfr'',
         ''-vf'', vf,
         ''-r'', ''30'',
         ''-c:v'', ''libx264'',
         ''-profile:v'', prof,
         ''-level'', level,
         ''-pix_fmt'', ''yuv420p'',
         ''-preset'', preset,
         ''-crf'', crf]
      in
      if add_silence then Some (Inr (base @ silence_args @ [outp]))
      else
       (let a_filters = (if loud_norm then [''loudnorm=I=-16:TP=-1.5:LRA=11''] else []) in
        case (if \<not> speed_is_one speed
              then map_option (\<lambda>e. a_filters @ [e]) (build_atempo_expr fmt speed)
              else Some a_filters) of
          None \<Rightarrow> None
        | Some a_filters \<Rightarrow>
            Some (Inr (base
                       @ (if a_filters \<noteq> [] then [''-filter:a'', join '','' a_filters] else [])
                       @ aac_args @ [outp]))))))))"

section \<open>The environment\<close>

text \<open>
  What \<open>json.loads\<close> returns: \<open>None\<close>, a \<open>bool\<close>, a number, a \<open>str\<close>, a
  \<open>list\<close>, or a \<open>dict\<close> with string keys (an association list with distinct keys).
\<close>

datatype json =
    JNull
  | JBool bool
  | JInt int
  | JFloat pyfloat
  | JStr string
  | JList "json list"
  | JDict "(string \<times> json) list"

text \<open>
  What the Batch Runner does that can be observed: a line put on the log queue, a call of
  the progress callback with its three arguments, and the launch of an external command
  (recorded by \<open>run_cmd\<close> below; the source keeps no such record).
\<close>

datatype event =
    Log string
  | Progress nat nat string
  | Spawn "string list"

text \<open>
  The world outside the program, over a state \<open>'w\<close> of which nothing is assumed.
  An operation that may raise returns the exception or its result, with the new state.
  \<^item> \<open>popen\<close>: \<open>subprocess.Popen(cmd, ...)\<close> followed by \<open>communicate()\<close>, for a
    command without NUL characters: exit code, standard output, standard error; it raises
    when the command cannot be started or its output cannot be decoded.
  \<^item> \<open>json_loads\<close>: \<open>json.loads\<close>.
  \<^item> \<open>isfile\<close>, \<open>path_exists\<close>: \<open>os.path.isfile\<close>, \<open>os.path.exists\<close>; they never raise.
  \<^item> \<open>mkdirs\<close>: \<open>os.makedirs(d, exist_ok=True)\<close> on a non-empty path \<open>d\<close>.
  \<^item> \<open>progress_cb\<close>: the callback handed to the worker; it is code of the caller, and may
    raise.
  \<^item> \<open>float_repr\<close>: the text of a float in an f-string.
\<close>

record 'w sys =
  popen :: "'w \<Rightarrow> string list \<Rightarrow> (exn + int \<times> string \<times> string) \<times> 'w"
  json_loads :: "string \<Rightarrow> exn + json"
  isfile :: "'w \<Rightarrow> string \<Rightarrow> bool"
  path_exists :: "'w \<Rightarrow> string \<Rightarrow> bool"
  mkdirs :: "'w \<Rightarrow> string \<Rightarrow> exn option \<times> 'w"
  progress_cb :: "'w \<Rightarrow> nat \<Rightarrow> nat \<Rightarrow> string \<Rightarrow> exn option \<times> 'w"
  float_repr :: "pyfloat \<Rightarrow> string"

type_synonym 'w state = "'w \<times> event list"

text \<open>
  \<open>Popen\<close> refuses an argument with an embedded NUL character before any process is
  started.
\<close>

definition run_cmd ::
  "'w sys \<Rightarrow> 'w state \<Rightarrow> string list \<Rightarrow> (exn + int \<times> string \<times> string) \<times> 'w state" where
  "run_cmd sys st cmd =
     (if list_ex (\<lambda>a. CHR 0x00 \<in> set a) cmd
      then (Inl (ValueError ''embedded null byte''), st)
      else let (r, w') = popen sys (fst st) cmd in (r, (w', snd st @ [Spawn cmd])))"

text \<open>
  \<open>os.makedirs(d, exist_ok=True)\<close>: the empty path is always refused, with a
  \<open>FileNotFoundError\<close> (an \<open>OSError\<close>) whose text ends with the \<open>repr\<close> of the empty
  path, two single quotes.
\<close>

definition enoent_empty :: exn where
  "enoent_empty = OSError (''[Errno 2] No such file or directory: '' @ [CHR 0x27, CHR 0x27])"

definition os_makedirs :: "'w sys \<Rightarrow> 'w state \<Rightarrow> string \<Rightarrow> exn option \<times> 'w state" where
  "os_makedirs sys st d =
     (if d = [] then (Some enoent_empty, st)
      else let (r, w') = mkdirs sys (fst st) d in (r, (w', snd st)))"

section \<open>Probe Adapter\<close>

text \<open>\<open>x.get(k, default)\<close>: only a \<open>dict\<close> has the method.\<close>

definition py_get :: "json \<Rightarrow> string \<Rightarrow> json \<Rightarrow> exn + json" where
  "py_get x k dflt = (case x of
       JDict kvs \<Rightarrow> Inr (case map_of kvs k of Some v \<Rightarrow> v | None \<Rightarrow> dflt)
     | _ \<Rightarrow> Inl (AttributeError ''object has no attribute get''))"

text \<open>
  The elements a \<open>for\<close> over \<open>x\<close> visits: the items of a list, the keys of a dict, the
  characters of a string; nothing else here is iterable.
\<close>

definition py_iter :: "json \<Rightarrow> exn + json list" where
  "py_iter x = (case x of
       JList xs \<Rightarrow> Inr xs
     | JDict kvs \<Rightarrow> Inr (map (\<lambda>kv. JStr (fst kv)) kvs)
     | JStr s \<Rightarrow> Inr (map (\<lambda>c. JStr [c]) s)
     | _ \<Rightarrow> Inl (TypeError ''object is not iterable''))"

text \<open>
  \<open>any(s.get("codec_type") == "audio" for s in streams)\<close>: the generator is consumed
  from the left and \<open>any\<close> stops at the first true element.
\<close>

fun any_audio :: "json list \<Rightarrow> exn + bool" where
  "any_audio [] = Inr False"
| "any_audio (s # ss) =
     (case py_get s ''codec_type'' JNull of
        Inl e \<Rightarrow> Inl e
      | Inr v \<Rightarrow> if v = JStr ''audio'' then Inr True else any_audio ss)"

text \<open>The body of the \<open>try\<close> block of \<open>has_audio_stream\<close>.\<close>

definition probe_body :: "'w sys \<Rightarrow> string \<Rightarrow> exn + bool" where
  "probe_body sys out =
     (case json_loads sys out of
        Inl e \<Rightarrow> Inl e
      | Inr data \<Rightarrow>
          (case py_get data ''streams'' (JList []) of
             Inl e \<Rightarrow> Inl e
           | Inr streams \<Rightarrow>
               (case py_iter streams of
                  Inl e \<Rightarrow> Inl e
                | Inr ss \<Rightarrow> any_audio ss)))"

definition ffprobe_cmd :: "string \<Rightarrow> string list" where
  "ffprobe_cmd path =
     [''ffprobe'', ''-v'', ''error'', ''-select_streams'', ''a'',
      ''-show_entries'', ''stream=codec_type'', ''-of'', ''json'', path]"

definition has_audio_stream :: "'w sys \<Rightarrow> 'w state \<Rightarrow> string \<Rightarrow> (exn + bool) \<times> 'w state" where
  "has_audio_stream sys st path =
     (let (r, st1) = run_cmd sys st (ffprobe_cmd path) in
      case r of
        Inl e \<Rightarrow> (Inl e, st1)
      | Inr (code, out, err) \<Rightarrow>
          if code \<noteq> 0 then (Inr False, st1)
          else (case probe_body sys out of
                  Inl e \<Rightarrow> (Inr False, st1)
                | Inr b \<Rightarrow> (Inr b, st1)))"

section \<open>Batch Runner\<close>

text \<open>
  The fields of a \<open>ConverterWorker\<close>.  The log queue is the \<open>Log\<close> events of the
  trace, the progress callback belongs to the environment.
\<close>

record worker =
  w_tasks :: "(string \<times> string) list"
  w_profile :: "string \<rightharpoonup> string"
  w_speed :: pyfloat
  w_normalize_audio :: bool
  w_overwrite :: bool

text \<open>\<open>ConverterWorker.__init__\<close>\<close>

definition converter_worker ::
  "(string \<times> string) list \<Rightarrow> string \<Rightarrow> string \<Rightarrow> string \<Rightarrow> bool \<Rightarrow> bool \<Rightarrow> exn + worker" where
  "converter_worker tasks profile_name speed_preset speed_custom normalize_audio overwrite =
     (case PROFILES profile_name of
        None \<Rightarrow> Inl (KeyError profile_name)
      | Some prof \<Rightarrow>
          (case parse_speed speed_preset speed_custom of
             Inl e \<Rightarrow> Inl e
           | Inr v \<Rightarrow>
               Inr \<lparr>w_tasks = tasks, w_profile = prof, w_speed = v,
                    w_normalize_audio = normalize_audio, w_overwrite = overwrite\<rparr>))"

text \<open>\<open>self.log(msg)\<close>: a \<open>put\<close> on an unbounded queue.\<close>

definition log :: "'w state \<Rightarrow> string \<Rightarrow> 'w state" where
  "log st msg = (fst st, snd st @ [Log msg])"

text \<open>\<open>self.progress_cb(cur, tot, msg)\<close>: the call is recorded, then it returns or raises.\<close>

definition progress :: "'w sys \<Rightarrow> 'w state \<Rightarrow> nat \<Rightarrow> nat \<Rightarrow> string \<Rightarrow> exn option \<times> 'w state" where
  "progress sys st cur tot msg =
     (let (r, w') = progress_cb sys (fst st) cur tot msg
      in (r, (w', snd st @ [Progress cur tot msg])))"

definition converting_msg :: "string \<Rightarrow> string" where
  "converting_msg inp = ''Converting: '' @ basename inp"

definition done_msg :: "nat \<Rightarrow> nat \<Rightarrow> string" where
  "done_msg idx tot = ''Done '' @ str_of_nat idx @ ''/'' @ str_of_nat tot"

text \<open>
  The body of the \<open>try\<close> block for one task: \<open>Inl e\<close> when it raises \<open>e\<close>,
  \<open>Inr ()\<close> when it runs to its end or leaves through \<open>continue\<close>, \<open>None\<close> when it
  never returns.
\<close>

definition task_body ::
  "'w sys \<Rightarrow> worker \<Rightarrow> nat \<Rightarrow> nat \<Rightarrow> string \<Rightarrow> string \<Rightarrow> 'w state
     \<Rightarrow> ((exn + unit) \<times> 'w state) option" where
  "task_body sys self idx tot inp outp st =
     (case progress sys st (idx - 1) tot (converting_msg inp) of
        (Some e, st1) \<Rightarrow> Some (Inl e, st1)
      | (None, st1) \<Rightarrow>
          if \<not> isfile sys (fst st1) inp
          then Some (Inr (), log st1 (''[SKIP] Not found: '' @ inp))
          else
           (case os_makedirs sys st1 (dirname outp) of
              (Some e, st2) \<Rightarrow> Some (Inl e, st2)
            | (None, st2) \<Rightarrow>
                if path_exists sys (fst st2) outp \<and> \<not> w_overwrite self
                then Some (Inr (),
                       log st2 (''[SKIP] Exists (enable Overwrite to replace): '' @ outp))
                else
                 (case has_audio_stream sys st2 inp of
                    (Inl e, st3) \<Rightarrow> Some (Inl e, st3)
                  | (Inr has_audio, st3) \<Rightarrow>
                     (case build_ffmpeg_cmd (float_repr sys) inp outp (w_profile self)
                             (w_speed self) (w_normalize_audio self) (\<not> has_audio) of
                        None \<Rightarrow> None
                      | Some (Inl e) \<Rightarrow> Some (Inl e, st3)
                      | Some (Inr cmd) \<Rightarrow>
                         (case run_cmd sys (log st3 (''[CMD] '' @ join '' '' cmd)) cmd of
                            (Inl e, st5) \<Rightarrow> Some (Inl e, st5)
                          | (Inr (code, out, err), st5) \<Rightarrow>
                              Some (Inr (),
                                if code \<noteq> 0
                                then log st5 (''[ERROR] '' @ basename inp @ '':'' @ [CHR 0x0A] @ err)
                                else log st5 (''[OK] '' @ outp)))))))"

text \<open>
  One turn of the \<open>for\<close> loop: the \<open>try\<close> body, the \<open>except Exception\<close> handler, the
  \<open>finally\<close> clause.  The first component of the result is the exception that leaves the
  loop body, if there is one: only the callback of the \<open>finally\<close> clause can raise it.
\<close>

definition process_task ::
  "'w sys \<Rightarrow> worker \<Rightarrow> nat \<Rightarrow> nat \<Rightarrow> string \<times> string \<Rightarrow> 'w state
     \<Rightarrow> (exn option \<times> 'w state) option" where
  "process_task sys self idx tot task st =
     (case task_body sys self idx tot (fst task) (snd task) st of
        None \<Rightarrow> None
      | Some (r, st1) \<Rightarrow>
          (let st2 = (case r of
                        Inl e \<Rightarrow> log st1 (''[ERROR] '' @ basename (fst task) @ '': '' @ exn_str e)
                      | Inr u \<Rightarrow> st1)
           in Some (progress sys st2 idx tot (done_msg idx tot))))"

text \<open>
  The \<open>for\<close> loop of \<open>run\<close> from index \<open>idx\<close> on.  An exception that leaves a turn ends
  the loop and \<open>run\<close> with it.
\<close>

fun run_loop ::
  "'w sys \<Rightarrow> worker \<Rightarrow> nat \<Rightarrow> nat \<Rightarrow> (string \<times> string) list \<Rightarrow> 'w state
     \<Rightarrow> (exn option \<times> 'w state) option" where
  "run_loop sys self idx tot [] st = Some (None, st)"
| "run_loop sys self idx tot (task # rest) st =
     (case process_task sys self idx tot task st of
        None \<Rightarrow> None
      | Some (Some e, st') \<Rightarrow> Some (Some e, st')
      | Some (None, st') \<Rightarrow> run_loop sys self (Suc idx) tot rest st')"


text \<open>The counts handed to the progress callback, in the order of the calls.\<close>

fun progress_counts :: "event list \<Rightarrow> nat list" where
  "progress_counts [] = []"
| "progress_counts (Progress cur tot msg # es) = cur # progress_counts es"
| "progress_counts (Log msg # es) = progress_counts es"
| "progress_counts (Spawn cmd # es) = progress_counts es"





section \<open>Sample environments\<close>

text \<open>
  An environment over a one-point state in which every file exists, the probe reports one
  audio stream, every command exits with code 0 and the callback returns.  Its
  \<open>float_repr\<close> gives the text of the two floats the sample runs format, \<open>1.0\<close> and
  \<open>inf\<close>.
\<close>

definition demo_sys :: "unit sys" where
  "demo_sys =
     \<lparr>popen = (\<lambda>w cmd. (Inr (0, ''{}'', []), w)),
      json_loads = (\<lambda>s. Inr (JDict [(''streams'', JList [JDict [(''codec_type'', JStr ''audio'')]])])),
      isfile = (\<lambda>w p. True),
      path_exists = (\<lambda>w p. True),
      mkdirs = (\<lambda>w d. (None, w)),
      progress_cb = (\<lambda>w cur tot msg. (None, w)),
      float_repr = (\<lambda>f. if f = PInf then ''inf'' else ''1.0'')\<rparr>"

definition baseline_profile :: "string \<rightharpoonup> string" where
  "baseline_profile = map_of [(''profile'', ''baseline''), (''level'', ''3.1''),
                              (''preset'', ''veryfast''), (''crf'', ''20'')]"

definition demo_worker :: worker where
  "demo_worker =
     \<lparr>w_tasks = [(''/in/a.mov'', ''/out/a_ppt.mp4'')],
      w_profile = baseline_profile,
      w_speed = Fin 1,
      w_normalize_audio = False,
      w_overwrite = True\<rparr>"

text \<open>The same environment with a probe that fails: exit code 1 and no output.\<close>

definition failing_probe_sys :: "unit sys" where
  "failing_probe_sys = demo_sys\<lparr>popen := (\<lambda>w cmd. (Inr (1, [], ''No such file''), w))\<rparr>"



section \<open>Properties of the float model\<close>

lemma pow2_powi: "pow2 e = 2 powi e"
  by (simp add: pow2_def power_int_def power_one_over inverse_eq_divide)

lemma pow2_pos [simp]: "0 < pow2 e"
  by (simp add: pow2_def)

lemma pow2_add: "pow2 (a + b) = pow2 a * pow2 b"
  by (simp add: pow2_powi power_int_add)

lemma pow2_Suc: "pow2 (e + 1) = 2 * pow2 e"
  by (simp add: pow2_powi power_int_add)

lemma pow2_mono: "a \<le> b \<Longrightarrow> pow2 a \<le> pow2 b"
  by (simp add: pow2_powi power_int_increasing)

lemma pow2_less_imp: "pow2 a < pow2 b \<Longrightarrow> a < b"
  using pow2_mono [of b a] by (cases "a < b") auto

lemma binade_bounds:
  assumes "0 < x"
  shows "pow2 (binade x) \<le> x \<and> x < pow2 (binade x + 1)"
proof (cases "1 \<le> x")
  case True
  define n where "n = nat \<lfloor>x\<rfloor>"
  have fx: "1 \<le> \<lfloor>x\<rfloor>" using True by simp
  then have rn: "real n = of_int \<lfloor>x\<rfloor>" by (simp add: n_def)
  have n: "0 < n" "real n \<le> x" "x < real n + 1"
    using fx by (simp add: n_def, simp add: rn, simp add: rn)
  from floorlog_bounds [of n 2] n(1)
  have b: "2 ^ (floorlog 2 n - 1) \<le> n" "n < 2 ^ floorlog 2 n" by auto
  have pos: "0 < floorlog 2 n" using n(1) by (simp add: floorlog_def)
  have e: "binade x = int (floorlog 2 n) - 1"
    using True by (simp add: binade_def n_def)
  have p1: "pow2 (binade x) = 2 ^ (floorlog 2 n - 1)"
    using pos by (simp add: e pow2_def nat_diff_distrib) 
  have p2: "pow2 (binade x + 1) = 2 ^ floorlog 2 n"
    by (simp add: e pow2_def)
  have "(2::real) ^ (floorlog 2 n - 1) \<le> real n"
    using of_nat_mono [OF b(1), where 'a = real] by simp
  then have l: "pow2 (binade x) \<le> x" using n(2) unfolding p1 by linarith
  have "Suc n \<le> 2 ^ floorlog 2 n" using b(2) by simp
  then have "real n + 1 \<le> 2 ^ floorlog 2 n"
    using of_nat_mono [of "Suc n" "2 ^ floorlog 2 n", where 'a = real] by simp
  then have "x < pow2 (binade x + 1)" using n(3) unfolding p2 by linarith
  with l show ?thesis by simp
next
  case False
  define k where "k = \<lceil>1 / x\<rceil>"
  define m where "m = nat (k - 1)"
  have inv: "1 < 1 / x" using False assms by simp
  have kb: "of_int k - 1 < 1 / x" "1 / x \<le> of_int k"
    using ceiling_correct [of "1 / x"] by (simp_all add: k_def)
  have c: "2 \<le> k" using inv kb(2) by linarith
  have rm: "real m = of_int k - 1" using c by (simp add: m_def)
  have m: "0 < m" "real m < 1 / x" "1 / x \<le> real m + 1"
    using c kb by (simp add: m_def, simp add: rm, simp add: rm)
  from floorlog_bounds [of m 2] m(1)
  have b: "2 ^ (floorlog 2 m - 1) \<le> m" "m < 2 ^ floorlog 2 m" by auto
  have pos: "0 < floorlog 2 m" using m(1) by (simp add: floorlog_def)
  have e: "binade x = - int (floorlog 2 m)"
    using False by (simp add: binade_def m_def k_def)
  have p1: "pow2 (binade x) = 1 / 2 ^ floorlog 2 m"
    using pos by (simp add: e pow2_def)
  have p2: "pow2 (binade x + 1) = 1 / 2 ^ (floorlog 2 m - 1)"
    using pos by (auto simp add: e pow2_def nat_diff_distrib)
  have "Suc m \<le> 2 ^ floorlog 2 m" using b(2) by simp
  then have "real m + 1 \<le> 2 ^ floorlog 2 m"
    using of_nat_mono [of "Suc m" "2 ^ floorlog 2 m", where 'a = real] by simp
  then have "1 / x \<le> 2 ^ floorlog 2 m" using m(3) by linarith
  then have l: "pow2 (binade x) \<le> x" using assms unfolding p1 by (simp add: field_simps)
  have "(2::real) ^ (floorlog 2 m - 1) \<le> real m"
    using of_nat_mono [OF b(1), where 'a = real] by simp
  then have "2 ^ (floorlog 2 m - 1) < 1 / x" using m(2) by linarith
  then have "x < pow2 (binade x + 1)" using assms unfolding p2 by (simp add: field_simps)
  with l show ?thesis by simp
qed

lemma binade_eqI:
  assumes "pow2 e \<le> x" "x < pow2 (e + 1)"
  shows "binade x = e"
proof -
  have x: "0 < x" using assms(1) pow2_pos [of e] by linarith
  from binade_bounds [OF x] have b: "pow2 (binade x) \<le> x" "x < pow2 (binade x + 1)" by auto
  have "pow2 e < pow2 (binade x + 1)" using assms(1) b(2) by linarith
  then have 1: "e < binade x + 1" by (rule pow2_less_imp)
  have "pow2 (binade x) < pow2 (e + 1)" using assms(2) b(1) by linarith
  then have 2: "binade x < e + 1" by (rule pow2_less_imp)
  from 1 2 show ?thesis by simp
qed

lemma rhe_err: "\<bar>of_int (rhe x) - x\<bar> \<le> 1 / 2"
  unfolding rhe_def Let_def by (auto simp: abs_le_iff; linarith)

lemma rhe_of_int [simp]: "rhe (of_int n) = n"
  by (simp add: rhe_def)

lemma rhe_ge: "of_int n \<le> x \<Longrightarrow> n \<le> rhe x"
  unfolding rhe_def Let_def by (auto simp: le_floor_iff; linarith)

lemma rhe_le: "x \<le> of_int n \<Longrightarrow> rhe x \<le> n"
  unfolding rhe_def Let_def
  by (auto simp: floor_le_iff)

lemma pow2_numeral_simps: "pow2 52 = 2 ^ 52" "pow2 53 = 2 ^ 53" "pow2 1024 = 2 ^ 1024" "pow2 1 = 2" "pow2 0 = 1" "pow2 (-1) = 1/2"
  by (simp_all add: pow2_def)

lemma pow2_diff: "pow2 (a - b) = pow2 a / pow2 b"
  by (simp add: pow2_powi power_int_diff)

lemma py_of_real_normal:
  assumes lo: "pow2 e \<le> x" and hi: "x < pow2 (e + 1)" and e: "- 1022 \<le> e" "e \<le> 1022"
  shows "\<exists>y. py_of_real x = Fin y \<and> pow2 e \<le> y \<and> y \<le> pow2 (e + 1) \<and> \<bar>y - x\<bar> \<le> pow2 (e - 53)"
proof -
  have x: "0 < x" using lo pow2_pos [of e] by linarith
  have b: "binade x = e" using lo hi by (rule binade_eqI)
  define q where "q = pow2 (e - 52)"
  have q: "quantum x = q" using x e by (simp add: quantum_def b q_def max_def)
  have qpos: "0 < q" by (simp add: q_def)
  define n where "n = rhe (x / q)"
  define y where "y = of_int n * q"
  have e_q: "pow2 e = 2 ^ 52 * q" "pow2 (e + 1) = 2 ^ 53 * q" "pow2 (e - 53) = q / 2"
    unfolding q_def by (simp_all add: pow2_diff pow2_Suc pow2_numeral_simps)
  have lo': "2 ^ 52 * q \<le> x" using lo unfolding e_q .
  have hi': "x < 2 ^ 53 * q" using hi unfolding e_q .
  have "of_int (2 ^ 52) \<le> x / q" using lo' qpos by (simp add: field_simps)
  then have n_lo: "2 ^ 52 \<le> n" unfolding n_def by (rule rhe_ge)
  have "x / q \<le> of_int (2 ^ 53)" using hi' qpos by (simp add: field_simps)
  then have n_hi: "n \<le> 2 ^ 53" unfolding n_def by (rule rhe_le)
  have "(2::real) ^ 52 \<le> of_int n" using n_lo of_int_le_iff [of "2 ^ 52" n, where 'a = real] by simp
  then have y_lo: "pow2 e \<le> y" using qpos unfolding y_def e_q by simp
  have "of_int n \<le> (2::real) ^ 53" using n_hi of_int_le_iff [of n "2 ^ 53", where 'a = real] by simp
  then have y_hi: "y \<le> pow2 (e + 1)" using qpos unfolding y_def e_q by simp
  have "pow2 (e + 1) \<le> pow2 1023" using e by (intro pow2_mono) simp
  also have "\<dots> < pow2 1024" by (simp add: pow2_def)
  finally have no_ovf: "\<not> pow2 1024 \<le> y" using y_hi by linarith
  have "\<bar>of_int n - x / q\<bar> \<le> 1 / 2" unfolding n_def by (rule rhe_err)
  then have "\<bar>of_int n - x / q\<bar> * q \<le> 1 / 2 * q" using qpos by (simp add: mult_right_mono)
  moreover have "(of_int n - x / q) * q = y - x"
    using qpos by (simp add: y_def field_simps)
  then have "\<bar>of_int n - x / q\<bar> * q = \<bar>y - x\<bar>"
    using qpos abs_mult_pos [of q "of_int n - x / q"] by simp
  ultimately have err: "\<bar>y - x\<bar> \<le> pow2 (e - 53)" unfolding e_q by simp
  have yy: "of_int (rhe (x / q)) * q = y" by (simp add: y_def n_def)
  have "py_of_real x = Fin y"
    using x no_ovf by (simp add: py_of_real_def q Let_def yy)
  with y_lo y_hi err show ?thesis by blast
qed

lemma is_double_posD:
  assumes "is_double x" "0 < x"
  shows "x = of_int (rhe (x / quantum x)) * quantum x" "x < pow2 1024"
  using assms unfolding is_double_def py_of_real_def Let_def
  by (auto split: if_splits)

lemma is_double_posI:
  assumes "0 < x" "x = of_int n * quantum x" "x < pow2 1024"
  shows "is_double x"
proof -
  have q: "0 < quantum x" by (simp add: quantum_def)
  have "x / quantum x = of_int n" using assms(2) q by (simp add: field_simps)
  then have "of_int (rhe (x / quantum x)) * quantum x = x" using assms(2) by simp
  then show ?thesis using assms(1,3) by (simp add: is_double_def py_of_real_def Let_def)
qed

lemma halve_exact:
  assumes d: "is_double x" and x: "2 < x"
  shows "is_double (x / 2)"
proof -
  have pos: "0 < x" using x by simp
  define b where "b = binade x"
  from binade_bounds [OF pos] have bb: "pow2 b \<le> x" "x < pow2 (b + 1)" by (simp_all add: b_def)
  have "pow2 1 < pow2 (b + 1)" using x bb(2) by (simp add: pow2_numeral_simps)
  then have b1: "1 \<le> b" using pow2_less_imp [of 1 "b + 1"] by simp
  have pb: "pow2 b = 2 * pow2 (b - 1)" using pow2_Suc [of "b - 1"] by simp
  have "binade (x / 2) = b - 1"
  proof (rule binade_eqI)
    show "pow2 (b - 1) \<le> x / 2" using bb(1) unfolding pb by simp
    show "x / 2 < pow2 (b - 1 + 1)" using bb(2) pow2_Suc [of b] by simp
  qed
  then have q2: "quantum (x / 2) = quantum x / 2"
    using b1 pow2_Suc [of "b - 53"] by (simp add: quantum_def b_def [symmetric] max_def)
  from is_double_posD [OF d pos] obtain n where n: "x = of_int n * quantum x" and lt: "x < pow2 1024"
    by blast
  show ?thesis
  proof (rule is_double_posI [where n = n])
    show "0 < x / 2" using pos by simp
    show "x / 2 = of_int n * quantum (x / 2)" using n by (simp add: q2)
    show "x / 2 < pow2 1024" using lt pos by simp
  qed
qed

lemma double_exact:
  assumes d: "is_double x" and x: "0 < x" "x < 1 / 2"
  shows "is_double (x * 2)"
proof -
  define b where "b = binade x"
  from binade_bounds [OF x(1)] have bb: "pow2 b \<le> x" "x < pow2 (b + 1)" by (simp_all add: b_def)
  have b2: "binade (x * 2) = b + 1"
  proof (rule binade_eqI)
    show "pow2 (b + 1) \<le> x * 2" using bb(1) pow2_Suc [of b] by simp
    show "x * 2 < pow2 (b + 1 + 1)" using bb(2) pow2_Suc [of "b + 1"] by simp
  qed
  from is_double_posD [OF d x(1)] obtain n where n: "x = of_int n * quantum x"
    by blast
  have lt: "x * 2 < pow2 1024" using x(2) by (simp add: pow2_def)
  show ?thesis
  proof (cases "- 1022 \<le> b")
    case True
    then have q2: "quantum (x * 2) = quantum x * 2"
      using pow2_Suc [of "b - 52"] by (simp add: quantum_def b2 b_def [symmetric] max_def add.commute)
    show ?thesis
    proof (rule is_double_posI [where n = n])
      show "0 < x * 2" using x(1) by simp
      show "x * 2 = of_int n * quantum (x * 2)" using n by (simp add: q2)
      show "x * 2 < pow2 1024" by (rule lt)
    qed
  next
    case False
    then have q2: "quantum (x * 2) = quantum x"
      by (simp add: quantum_def b2 b_def [symmetric] max_def)
    show ?thesis
    proof (rule is_double_posI [where n = "n * 2"])
      show "0 < x * 2" using x(1) by simp
      show "x * 2 = of_int (n * 2) * quantum (x * 2)" using n by (simp add: q2)
      show "x * 2 < pow2 1024" by (rule lt)
    qed
  qed
qed

lemma py_of_real_rel:
  assumes lo: "pow2 (- 1022) \<le> z" and hi: "z < pow2 1023"
  shows "\<exists>zv. py_of_real z = Fin zv \<and> \<bar>zv - z\<bar> \<le> z / 2 ^ 53"
proof -
  have pos: "0 < z" using lo pow2_pos [of "- 1022"] by linarith
  define e where "e = binade z"
  from binade_bounds [OF pos] have bb: "pow2 e \<le> z" "z < pow2 (e + 1)" by (simp_all add: e_def)
  have "pow2 (- 1022) < pow2 (e + 1)" using lo bb(2) by linarith
  then have e1: "- 1022 \<le> e" using pow2_less_imp [of "- 1022" "e + 1"] by simp
  have "pow2 e < pow2 1023" using hi bb(1) by linarith
  then have e2: "e \<le> 1022" using pow2_less_imp [of e 1023] by simp
  from py_of_real_normal [OF bb e1 e2] obtain zv where
    zv: "py_of_real z = Fin zv" "\<bar>zv - z\<bar> \<le> pow2 (e - 53)" by blast
  have "pow2 (e - 53) = pow2 e / 2 ^ 53" by (simp add: pow2_diff pow2_numeral_simps)
  also have "\<dots> \<le> z / 2 ^ 53" using bb(1) by (simp add: divide_right_mono)
  finally show ?thesis using zv by auto
qed

lemma rhe_nonneg: "0 \<le> x \<Longrightarrow> 0 \<le> rhe x"
  using rhe_ge [of 0 x] by simp

lemma py_abs_of_real: "py_abs (py_of_real z) = py_of_real \<bar>z\<bar>"
proof (cases "z = 0")
  case True
  then show ?thesis by (simp add: py_of_real_def py_abs_def)
next
  case False
  define q where "q = quantum \<bar>z\<bar>"
  define y where "y = of_int (rhe (\<bar>z\<bar> / q)) * q"
  have q: "0 < q" by (simp add: q_def quantum_def)
  have "0 \<le> rhe (\<bar>z\<bar> / q)" using q by (intro rhe_nonneg) simp
  then have y: "0 \<le> y" using q by (simp add: y_def)
  have 1: "py_of_real z = (if pow2 1024 \<le> y then (if 0 < z then PInf else NInf) else Fin (sgn z * y))"
    using False by (simp add: py_of_real_def Let_def q_def y_def)
  have 2: "py_of_real \<bar>z\<bar> = (if pow2 1024 \<le> y then PInf else Fin y)"
    using False by (simp add: py_of_real_def Let_def q_def y_def)
  show ?thesis using False y unfolding 1 2 by (simp add: py_abs_def sgn_if)
qed

lemma is_double_2: "is_double 2"
proof (rule is_double_posI [where n = "2 ^ 52"])
  have "binade 2 = 1" by (rule binade_eqI) (simp_all add: pow2_def)
  then have "quantum 2 = pow2 (- 51)" by (simp add: quantum_def)
  then show "2 = real_of_int (2 ^ 52) * quantum 2" by (simp add: pow2_def)
  show "(2::real) < pow2 1024" using pow2_mono [of 2 1024] by (simp add: pow2_def)
qed simp

lemma py_of_real_2: "py_of_real 2 = Fin 2"
  using is_double_2 by (simp add: is_double_def)

lemma py_of_real_unit_range:
  assumes "1 / 2 \<le> x" "x \<le> 2"
  shows "\<exists>a. py_of_real x = Fin a \<and> 1 / 2 \<le> a \<and> a \<le> 2 \<and> \<bar>a - x\<bar> \<le> 1 / 2 ^ 53"
proof -
  consider "x < 1" | "1 \<le> x" "x < 2" | "x = 2" using assms(2) by linarith
  then show ?thesis
  proof cases
    case 1
    have "pow2 (- 1) \<le> x" "x < pow2 (- 1 + 1)" using assms(1) 1 by (simp_all add: pow2_def)
    from py_of_real_normal [OF this]
    obtain a where "py_of_real x = Fin a" "pow2 (- 1) \<le> a" "a \<le> pow2 (- 1 + 1)" "\<bar>a - x\<bar> \<le> pow2 (- 1 - 53)"
      by auto
    then show ?thesis by (auto simp: pow2_def)
  next
    case 2
    have "pow2 0 \<le> x" "x < pow2 (0 + 1)" using 2 by (simp_all add: pow2_def)
    from py_of_real_normal [OF this]
    obtain a where "py_of_real x = Fin a" "pow2 0 \<le> a" "a \<le> pow2 (0 + 1)" "\<bar>a - x\<bar> \<le> pow2 (0 - 53)"
      by auto
    then show ?thesis by (auto simp: pow2_def)
  next
    case 3
    then show ?thesis by (simp add: py_of_real_2)
  qed
qed

section \<open>Properties of the Tempo Decomposer\<close>

lemma py_cmp_Fin [simp]:
  "py_lt (Fin x) (Fin y) = (x < y)"
  "py_gt (Fin x) (Fin y) = (y < x)"
  "py_le (Fin x) (Fin y) = (x \<le> y)"
  "py_eq (Fin x) (Fin y) = (x = y)"
  by (auto simp: py_lt_def py_gt_def py_le_def py_eq_def)

lemma halve_while_finite:
  assumes "is_double x" "0 < x"
  shows "\<exists>k r. halve_while fs (Fin x) = Some (fs @ replicate k (Fin 2), Fin r)
           \<and> is_double r \<and> 0 < r \<and> r \<le> 2 \<and> x = 2 ^ k * r"
  using assms
proof (induction "nat \<lfloor>x\<rfloor>" arbitrary: x fs rule: less_induct)
  case less
  show ?case
  proof (cases "2 < x")
    case False
    then have "halve_while fs (Fin x) = Some (fs @ replicate 0 (Fin 2), Fin x)"
      by (subst halve_while.simps) simp
    with False less.prems show ?thesis by (intro exI [of _ 0] exI [of _ x]) simp
  next
    case True
    have d2: "is_double (x / 2)" using less.prems(1) True by (rule halve_exact)
    then have step: "py_div_lit (Fin x) 2 = Fin (x / 2)"
      by (simp add: py_div_lit_def is_double_def)
    have "\<lfloor>x / 2\<rfloor> < \<lfloor>x\<rfloor>" using True by linarith
    moreover have "0 < \<lfloor>x\<rfloor>" using True by linarith
    ultimately have "nat \<lfloor>x / 2\<rfloor> < nat \<lfloor>x\<rfloor>" by linarith
    from less.hyps [OF this d2, of "fs @ [Fin 2]"] True
    obtain k r where kr: "halve_while (fs @ [Fin 2]) (Fin (x / 2)) = Some ((fs @ [Fin 2]) @ replicate k (Fin 2), Fin r)"
      "is_double r" "0 < r" "r \<le> 2" "x / 2 = 2 ^ k * r" by auto
    have "halve_while fs (Fin x) = halve_while (fs @ [Fin 2]) (Fin (x / 2))"
      using True by (subst halve_while.simps) (simp add: step)
    also have "\<dots> = Some (fs @ replicate (Suc k) (Fin 2), Fin r)"
      by (simp add: kr(1) replicate_app_Cons_same)
    finally have "halve_while fs (Fin x) = Some (fs @ replicate (Suc k) (Fin 2), Fin r)" .
    moreover have "x = 2 ^ Suc k * r" using kr(5) by simp
    ultimately show ?thesis using kr(2,3,4) by blast
  qed
qed

lemma double_while_finite:
  assumes "is_double x" "0 < x"
  shows "\<exists>j r. double_while fs (Fin x) = Some (fs @ replicate j (Fin (1 / 2)), Fin r)
           \<and> is_double r \<and> 1 / 2 \<le> r \<and> r \<le> max x 1 \<and> r = 2 ^ j * x"
  using assms
proof (induction "nat \<lceil>1 / x\<rceil>" arbitrary: x fs rule: less_induct)
  case less
  show ?case
  proof (cases "x < 1 / 2")
    case False
    then have "double_while fs (Fin x) = Some (fs @ replicate 0 (Fin (1 / 2)), Fin x)"
      by (subst double_while.simps) simp
    with False less.prems show ?thesis by (intro exI [of _ 0] exI [of _ x]) simp
  next
    case True
    have d2: "is_double (x * 2)" using less.prems True by (intro double_exact)
    then have step: "py_div_lit (Fin x) (1 / 2) = Fin (x * 2)"
      by (simp add: py_div_lit_def is_double_def)
    have big: "2 < 1 / x" using True less.prems(2) by (simp add: field_simps)
    have "1 / (x * 2) = (1 / x) / 2" by simp
    then have "\<lceil>1 / (x * 2)\<rceil> < \<lceil>1 / x\<rceil>" using big by linarith
    moreover have "0 < \<lceil>1 / x\<rceil>" using big by linarith
    ultimately have "nat \<lceil>1 / (x * 2)\<rceil> < nat \<lceil>1 / x\<rceil>" by linarith
    from less.hyps [OF this d2, of "fs @ [Fin (1 / 2)]"] less.prems(2)
    obtain j r where jr: "double_while (fs @ [Fin (1 / 2)]) (Fin (x * 2)) = Some ((fs @ [Fin (1 / 2)]) @ replicate j (Fin (1 / 2)), Fin r)"
      "is_double r" "1 / 2 \<le> r" "r \<le> max (x * 2) 1" "r = 2 ^ j * (x * 2)" by auto
    have "double_while fs (Fin x) = double_while (fs @ [Fin (1 / 2)]) (Fin (x * 2))"
      using True by (subst double_while.simps) (simp add: step)
    also have "\<dots> = Some (fs @ replicate (Suc j) (Fin (1 / 2)), Fin r)"
      by (simp add: jr(1) replicate_app_Cons_same)
    finally have "double_while fs (Fin x) = Some (fs @ replicate (Suc j) (Fin (1 / 2)), Fin r)" .
    moreover have "r = 2 ^ Suc j * x" using jr(5) by simp
    moreover have "r \<le> max x 1" using jr(4) True by (simp add: max_def split: if_splits)
    ultimately show ?thesis using jr(2,3) by blast
  qed
qed

lemma py_of_real_coarse:
  assumes lo: "1 / 4096 \<le> z" and hi: "z \<le> 4"
  shows "\<exists>zv. py_of_real z = Fin zv \<and> z * (9999 / 10000) \<le> zv \<and> zv \<le> z * (10001 / 10000)"
proof -
  have "pow2 (- 1022) \<le> pow2 (- 12)" by (intro pow2_mono) simp
  also have "\<dots> = 1 / 4096" by (simp add: pow2_def)
  finally have 1: "pow2 (- 1022) \<le> z" using lo by linarith
  have "pow2 2 \<le> pow2 1022" by (intro pow2_mono) simp
  moreover have "pow2 2 = 4" by (simp add: pow2_def)
  moreover have "pow2 1022 < pow2 1023" using pow2_Suc [of 1022] pow2_pos [of 1022] by simp
  ultimately have 2: "z < pow2 1023" using hi by linarith
  from py_of_real_rel [OF 1 2] obtain zv where zv: "py_of_real z = Fin zv" "\<bar>zv - z\<bar> \<le> z / 2 ^ 53"
    by blast
  have z: "0 < z" using lo by linarith
  have "z / 2 ^ 53 \<le> z / 10000" using z by (intro divide_left_mono) simp_all
  with zv(2) have "\<bar>zv - z\<bar> \<le> z / 10000" by linarith
  then have "z * (9999 / 10000) \<le> zv" "zv \<le> z * (10001 / 10000)" by linarith+
  then show ?thesis using zv(1) by blast
qed

lemma lit_1e_3_val:
  "\<exists>t. lit_1e_3 = Fin t \<and> 99 / 100000 \<le> t \<and> t \<le> 101 / 100000"
proof -
  have "1 / 4096 \<le> (1 / 1000 :: real)" "(1 / 1000 :: real) \<le> 4" by simp_all
  from py_of_real_coarse [OF this] obtain t where
    "py_of_real (1 / 1000) = Fin t" "1 / 1000 * (9999 / 10000) \<le> t" "t \<le> 1 / 1000 * (10001 / 10000)"
    by blast
  then show ?thesis unfolding lit_1e_3_def by (intro exI [of _ t]) simp
qed

lemma isclose_1_bound:
  assumes a: "1 / 2 \<le> a" "a \<le> 2"
    and close: "py_isclose (Fin a) (Fin 1) lit_1e_3 lit_1e_3"
  shows "\<bar>a - 1\<bar> \<le> 3 / 1000"
proof (rule ccontr)
  assume far: "\<not> \<bar>a - 1\<bar> \<le> 3 / 1000"
  then have ne: "a \<noteq> 1" by auto
  obtain t where t: "lit_1e_3 = Fin t" "99 / 100000 \<le> t" "t \<le> 101 / 100000"
    using lit_1e_3_val by blast
  define d where "d = \<bar>1 - a\<bar>"
  have d: "3 / 1000 < d" "d \<le> 1" using far a unfolding d_def by linarith+
  have "1 / 4096 \<le> d" "d \<le> 4" using d by linarith+
  from py_of_real_coarse [OF this] obtain dv where
    dv: "py_of_real d = Fin dv" "d * (9999 / 10000) \<le> dv" by blast
  have diff: "py_abs (py_sub (Fin 1) (Fin a)) = Fin dv"
    by (simp add: py_sub_def py_abs_of_real d_def [symmetric] dv(1))
  have "1 / 4096 \<le> t" "t \<le> 4" using t by linarith+
  from py_of_real_coarse [OF this] obtain v1 where
    v1: "py_of_real t = Fin v1" "t * (9999 / 10000) \<le> v1" "v1 \<le> t * (10001 / 10000)" by blast
  have "0 \<le> v1" using v1(2) t(2) by linarith
  then have r1: "py_abs (py_mul (Fin t) (Fin 1)) = Fin v1"
    by (simp add: py_mul_def py_abs_def v1(1))
  have ta: "99 / 200000 \<le> t * a" "t * a \<le> 202 / 100000"
    using mult_mono [of "99 / 100000" t "1 / 2" a] mult_mono [of t "101 / 100000" a 2] t a by simp_all
  have "1 / 4096 \<le> t * a" "t * a \<le> 4" using ta by linarith+
  from py_of_real_coarse [OF this] obtain v2 where
    v2: "py_of_real (t * a) = Fin v2" "t * a * (9999 / 10000) \<le> v2" "v2 \<le> t * a * (10001 / 10000)" by blast
  have "0 \<le> v2" using v2(2) ta(1) by linarith
  then have r2: "py_abs (py_mul (Fin t) (Fin a)) = Fin v2"
    by (simp add: py_mul_def py_abs_def v2(1))
  have "dv \<le> v1 \<or> dv \<le> v2 \<or> dv \<le> t"
    using close ne by (simp add: py_isclose_def py_isinf_def t(1) diff r1 r2 Let_def)
  moreover have "v1 < dv" using v1(3) t(3) dv(2) d(1) by linarith
  moreover have "v2 < dv" using v2(3) ta(2) dv(2) d(1) by linarith
  moreover have "t < dv" using t(3) dv(2) d(1) by linarith
  ultimately show False by linarith
qed

lemma halve_while_PInf: "halve_while fs PInf = None"
proof (rule ccontr)
  assume "halve_while fs PInf \<noteq> None"
  then obtain res where ret: "halve_while fs PInf = Some res" by auto
  have "PInf \<noteq> PInf"
  proof (rule halve_while.raw_induct [where P = "\<lambda>fs rem res. rem \<noteq> PInf", OF _ ret])
    fix f fs rem res
    assume IH: "\<And>fs rem res. f fs rem = Some res \<Longrightarrow> rem \<noteq> PInf"
      and eq: "(if py_gt rem (Fin 2) then f (fs @ [Fin 2]) (py_div_lit rem 2)
                else Some (fs, rem)) = Some res"
    show "rem \<noteq> PInf"
    proof
      assume inf: "rem = PInf"
      then have "f (fs @ [Fin 2]) PInf = Some res"
        using eq by (simp add: py_gt_def py_lt_def py_div_lit_def)
      from IH [OF this] show False by simp
    qed
  qed
  then show False by simp
qed

lemma round3_unit_range:
  assumes r: "1 / 2 \<le> r" "r \<le> 2"
  shows "\<exists>a. py_round (Fin r) 3 = Fin a \<and> 1 / 2 \<le> a \<and> a \<le> 2 \<and> \<bar>a - r\<bar> \<le> 6 / 10000"
proof -
  define n where "n = rhe (r * 1000)"
  define dq :: real where "dq = of_int n / 1000"
  have "of_int 500 \<le> r * 1000" using r(1) by simp
  then have n1: "500 \<le> n" unfolding n_def by (rule rhe_ge)
  have "r * 1000 \<le> of_int 2000" using r(2) by simp
  then have n2: "n \<le> 2000" unfolding n_def by (rule rhe_le)
  have dq: "1 / 2 \<le> dq" "dq \<le> 2" using n1 n2 by (simp_all add: dq_def)
  have "\<bar>of_int n - r * 1000\<bar> \<le> 1 / 2" unfolding n_def by (rule rhe_err)
  then have e1: "\<bar>dq - r\<bar> \<le> 1 / 2000" unfolding dq_def by (simp add: abs_le_iff field_simps)
  from py_of_real_unit_range [OF dq] obtain a where
    a: "py_of_real dq = Fin a" "1 / 2 \<le> a" "a \<le> 2" "\<bar>a - dq\<bar> \<le> 1 / 2 ^ 53" by blast
  have "(1::real) / 2 ^ 53 \<le> 1 / 10000" by simp
  with a(4) e1 have "\<bar>a - r\<bar> \<le> 6 / 10000" by linarith
  moreover have "py_round (Fin r) 3 = Fin a" by (simp add: py_round_def n_def dq_def a(1) [unfolded dq_def n_def])
  ultimately show ?thesis using a(2,3) by blast
qed

lemma atempo_factors_finite:
  assumes s: "is_double s" "0 < s"
  shows "\<exists>k j r a. halve_while [] (Fin s) = Some (replicate k (Fin 2), Fin (s / 2 ^ k))
           \<and> s / 2 ^ k \<le> 2
           \<and> double_while (replicate k (Fin 2)) (Fin (s / 2 ^ k))
               = Some (replicate k (Fin 2) @ replicate j (Fin (1 / 2)), Fin r)
           \<and> 1 / 2 \<le> r \<and> r \<le> 2 \<and> r = 2 ^ j * (s / 2 ^ k)
           \<and> py_round (Fin r) 3 = Fin a \<and> 1 / 2 \<le> a \<and> a \<le> 2 \<and> \<bar>a - r\<bar> \<le> 6 / 10000
           \<and> atempo_factors (Fin s) =
                Some (if \<not> py_isclose (Fin a) (Fin 1) lit_1e_3 lit_1e_3
                      then replicate k (Fin 2) @ replicate j (Fin (1 / 2)) @ [Fin a]
                      else replicate k (Fin 2) @ replicate j (Fin (1 / 2)))"
proof -
  from halve_while_finite [OF s, of "[]"] obtain k r0 where
    h: "halve_while [] (Fin s) = Some (replicate k (Fin 2), Fin r0)"
      "is_double r0" "0 < r0" "r0 \<le> 2" "s = 2 ^ k * r0" by auto
  have r0: "r0 = s / 2 ^ k" using h(5) by simp
  from double_while_finite [OF h(2,3), of "replicate k (Fin 2)"] obtain j r where
    d: "double_while (replicate k (Fin 2)) (Fin r0)
          = Some (replicate k (Fin 2) @ replicate j (Fin (1 / 2)), Fin r)"
      "1 / 2 \<le> r" "r \<le> max r0 1" "r = 2 ^ j * r0" by auto
  have r2: "r \<le> 2" using d(3) h(4) by (simp add: max_def split: if_splits)
  from round3_unit_range [OF d(2) r2] obtain a where
    a: "py_round (Fin r) 3 = Fin a" "1 / 2 \<le> a" "a \<le> 2" "\<bar>a - r\<bar> \<le> 6 / 10000" by blast
  have "atempo_factors (Fin s) =
          Some (if \<not> py_isclose (Fin a) (Fin 1) lit_1e_3 lit_1e_3
                then replicate k (Fin 2) @ replicate j (Fin (1 / 2)) @ [Fin a]
                else replicate k (Fin 2) @ replicate j (Fin (1 / 2)))"
    using s(2) by (simp add: atempo_factors_def h(1) d(1) a(1))
  then show ?thesis using h(1,4) d(1,2,4) r2 a unfolding r0 by blast
qed

subsection \<open>Termination and accuracy\<close>

lemma is_double_3: "is_double 3"
proof (rule is_double_posI [where n = "3 * 2 ^ 51"])
  have "binade 3 = 1" by (rule binade_eqI) (simp_all add: pow2_def)
  then have "quantum 3 = pow2 (- 51)" by (simp add: quantum_def)
  then show "3 = real_of_int (3 * 2 ^ 51) * quantum 3" by (simp add: pow2_def)
  show "(3::real) < pow2 1024" using pow2_mono [of 2 1024] by (simp add: pow2_def)
qed simp

lemma prod_list_replicate: "prod_list (replicate n (x::real)) = x ^ n"
  by (induction n) simp_all

text \<open>
  The expression names the stages of \<open>atempo_stages\<close>, one \<open>atempo=\<close> item for each,
  whenever the float \<open>1.0\<close> is written \<open>1.0\<close>.
\<close>

lemma build_atempo_expr_stages:
  assumes "fmt (Fin 1) = ''1.0''"
  shows "build_atempo_expr fmt speed
           = map_option (\<lambda>stages. join '','' (map (\<lambda>f. ''atempo='' @ fmt f) stages))
               (atempo_stages speed)"
  by (cases "atempo_factors speed") (simp_all add: build_atempo_expr_def atempo_stages_def assms)

text \<open>
  Claim C9.  For every finite speed \<open>s > 0\<close> (a binary64 value), \<open>build_atempo_expr\<close>
  terminates: the loop that emits \<open>2.0\<close> ends after finitely many halvings (\<open>k\<close> of
  them) with a remainder \<open>\<le> 2.0\<close>, the loop that emits \<open>0.5\<close> ends after finitely many
  doublings (\<open>j\<close> of them) with a remainder \<open>\<ge> 0.5\<close>, and the function returns its
  expression.
\<close>

theorem build_atempo_expr_terminates:
  assumes "is_double s" and "0 < s"
  shows "\<exists>k j r. halve_while [] (Fin s) = Some (replicate k (Fin 2), Fin (s / 2 ^ k))
           \<and> s / 2 ^ k \<le> 2
           \<and> double_while (replicate k (Fin 2)) (Fin (s / 2 ^ k))
               = Some (replicate k (Fin 2) @ replicate j (Fin (1 / 2)), Fin r)
           \<and> 1 / 2 \<le> r
           \<and> (\<exists>out. build_atempo_expr fmt (Fin s) = Some out)"
proof -
  from atempo_factors_finite [OF assms] obtain k j r fs where
    "halve_while [] (Fin s) = Some (replicate k (Fin 2), Fin (s / 2 ^ k))"
    "s / 2 ^ k \<le> 2"
    "double_while (replicate k (Fin 2)) (Fin (s / 2 ^ k))
       = Some (replicate k (Fin 2) @ replicate j (Fin (1 / 2)), Fin r)"
    "1 / 2 \<le> r" "atempo_factors (Fin s) = Some fs" by blast
  then show ?thesis by (auto simp: build_atempo_expr_def)
qed

theorem build_atempo_expr_terminates_witness:
  "is_double 3 \<and> (0::real) < 3 \<and>
   (\<exists>k j r. halve_while [] (Fin 3) = Some (replicate k (Fin 2), Fin (3 / 2 ^ k))
           \<and> 3 / 2 ^ k \<le> (2::real)
           \<and> double_while (replicate k (Fin 2)) (Fin (3 / 2 ^ k))
               = Some (replicate k (Fin 2) @ replicate j (Fin (1 / 2)), Fin r)
           \<and> 1 / 2 \<le> r
           \<and> (\<exists>out. build_atempo_expr (\<lambda>f. if f = Fin 2 then ''2.0'' else ''1.5'') (Fin 3) = Some out))"
  using build_atempo_expr_terminates [OF is_double_3, of "\<lambda>f. if f = Fin 2 then ''2.0'' else ''1.5''"] is_double_3 by simp

text \<open>
  The finiteness hypothesis is needed: at \<open>+inf\<close> the first loop never ends
  (\<open>halve_while_PInf\<close>).
\<close>

text \<open>
  Claim C1, amended.  For every finite speed \<open>s > 0\<close> (a binary64 value) the Tempo
  Decomposer returns, the product of the emitted tempo factors is within 0.5 percent of
  \<open>s\<close>, and every emitted factor lies in \<open>[0.5, 2.0]\<close>.
\<close>

theorem atempo_stages_product:
  assumes "is_double s" and "0 < s"
  shows "\<exists>fs. atempo_stages (Fin s) = Some (map Fin fs)
           \<and> \<bar>prod_list fs - s\<bar> \<le> 5 / 1000 * s
           \<and> (\<forall>f \<in> set fs. 1 / 2 \<le> f \<and> f \<le> 2)"
proof -
  from atempo_factors_finite [OF assms] obtain k j r a where
    r: "1 / 2 \<le> r" "r \<le> 2" "r = 2 ^ j * (s / 2 ^ k)"
    and a: "1 / 2 \<le> a" "a \<le> 2" "\<bar>a - r\<bar> \<le> 6 / 10000"
    and fs: "atempo_factors (Fin s) =
                Some (if \<not> py_isclose (Fin a) (Fin 1) lit_1e_3 lit_1e_3
                      then replicate k (Fin 2) @ replicate j (Fin (1 / 2)) @ [Fin a]
                      else replicate k (Fin 2) @ replicate j (Fin (1 / 2)))"
    by blast
  define c :: real where "c = 2 ^ k * (1 / 2) ^ j"
  have c: "0 < c" by (simp add: c_def)
  have s: "s = c * r" using r(3) by (simp add: c_def field_simps)
  show ?thesis
  proof (cases "py_isclose (Fin a) (Fin 1) lit_1e_3 lit_1e_3")
    case False
    define fs' where "fs' = replicate k (2::real) @ replicate j (1 / 2) @ [a]"
    have 1: "atempo_stages (Fin s) = Some (map Fin fs')"
      using False by (simp add: atempo_stages_def fs fs'_def)
    have "prod_list fs' - s = c * (a - r)"
      by (simp add: fs'_def prod_list_replicate c_def s algebra_simps)
    then have "\<bar>prod_list fs' - s\<bar> = c * \<bar>a - r\<bar>" using c by (simp add: abs_mult)
    also have "\<dots> \<le> c * (5 / 1000 * r)"
    proof (intro mult_left_mono)
      show "\<bar>a - r\<bar> \<le> 5 / 1000 * r" using a(3) r(1) by linarith
      show "0 \<le> c" using c by simp
    qed
    finally have 2: "\<bar>prod_list fs' - s\<bar> \<le> 5 / 1000 * s" by (simp add: s)
    have 3: "\<forall>f \<in> set fs'. 1 / 2 \<le> f \<and> f \<le> 2" using a by (auto simp: fs'_def)
    from 1 2 3 show ?thesis by blast
  next
    case True
    from isclose_1_bound [OF a(1,2) True] have a1: "\<bar>a - 1\<bar> \<le> 3 / 1000" .
    define fs' where "fs' = (if k = 0 \<and> j = 0 then [1] else replicate k (2::real) @ replicate j (1 / 2))"
    have 1: "atempo_stages (Fin s) = Some (map Fin fs')"
      using True by (simp add: atempo_stages_def fs fs'_def)
    have "prod_list fs' = c" by (simp add: fs'_def prod_list_replicate c_def)
    then have "prod_list fs' - s = c * (1 - r)" by (simp add: s algebra_simps)
    then have "\<bar>prod_list fs' - s\<bar> = c * \<bar>1 - r\<bar>" using c by (simp add: abs_mult)
    also have "\<dots> \<le> c * (5 / 1000 * r)"
    proof (intro mult_left_mono)
      show "\<bar>1 - r\<bar> \<le> 5 / 1000 * r" using a(3) a1 by linarith
      show "0 \<le> c" using c by simp
    qed
    finally have 2: "\<bar>prod_list fs' - s\<bar> \<le> 5 / 1000 * s" by (simp add: s)
    have 3: "\<forall>f \<in> set fs'. 1 / 2 \<le> f \<and> f \<le> 2" by (auto simp: fs'_def)
    from 1 2 3 show ?thesis by blast
  qed
qed

theorem atempo_stages_product_witness:
  "is_double 3 \<and> (0::real) < 3 \<and>
   (\<exists>fs. atempo_stages (Fin 3) = Some (map Fin fs)
           \<and> \<bar>prod_list fs - 3\<bar> \<le> 5 / 1000 * 3
           \<and> (\<forall>f \<in> set fs. 1 / 2 \<le> f \<and> f \<le> 2))"
  using atempo_stages_product [OF is_double_3] is_double_3 by simp

text \<open>
  Claim C1 as stated covers every \<open>s > 0\<close>.  The float \<open>+inf\<close> is greater than 0
  (\<open>parse_speed\<close> resolves the custom input \<open>inf\<close> to it), and for it the decomposition
  never returns: there are no emitted factors.
\<close>

theorem atempo_stages_PInf_diverges:
  "py_gt PInf (Fin 0) \<and> atempo_stages PInf = None"
  by (simp add: atempo_stages_def atempo_factors_def halve_while_PInf py_gt_def py_lt_def py_le_def py_eq_def)

section \<open>Properties of speed resolution\<close>

lemmas parse_defs = py_float_def strip_with_def c_isspace_def str_isspace_def str_strip_def
  str_lower_def lower_char_def str_remove_def split_sign_def parse_decimal_def parse_exponent_def
  is_digit_def digit_val_def digits_val_def pow10_def float_error_def

lemma py_of_real_nonpos: "x \<le> 0 \<Longrightarrow> \<not> py_gt (py_of_real x) (Fin 0)"
proof -
  assume x: "x \<le> 0"
  define y where "y = of_int (rhe (\<bar>x\<bar> / quantum \<bar>x\<bar>)) * quantum \<bar>x\<bar>"
  have q: "0 < quantum \<bar>x\<bar>" by (simp add: quantum_def)
  have "0 \<le> rhe (\<bar>x\<bar> / quantum \<bar>x\<bar>)" using q by (intro rhe_nonneg) simp
  then have y: "0 \<le> y" using q by (simp add: y_def)
  show ?thesis
  proof (cases "x = 0")
    case True
    then show ?thesis by (simp add: py_of_real_def)
  next
    case False
    then have "py_of_real x = (if pow2 1024 \<le> y then NInf else Fin (- y))"
      using x by (simp add: py_of_real_def Let_def y_def sgn_if)
    then show ?thesis using y by (simp add: py_gt_def py_lt_def)
  qed
qed

lemma float_1_15: "py_of_real (115 / 100) = Fin (2589569785738035 / 2251799813685248)"
proof -
  have b: "binade (23 / 20) = 0" by (rule binade_eqI) (simp_all add: pow2_def)
  have q: "quantum (23 / 20) = 1 / 2 ^ 52" by (simp add: quantum_def b pow2_def)
  have r: "rhe (25895697857380352 / 5) = 5179139571476070" by (simp add: rhe_def Let_def)
  have "py_of_real (23 / 20) = Fin (2589569785738035 / 2251799813685248)"
    unfolding py_of_real_def Let_def by (simp add: q r pow2_def)
  then show ?thesis by simp
qed

text \<open>
  Claim C7.  Speed resolution maps the preset \<open>2.0x\<close> to \<open>2.0\<close> (whatever the custom
  text), the custom inputs \<open>1.15x\<close> to the float \<open>1.15\<close>, \<open>abc\<close> to \<open>1.0\<close> and
  \<open>-3\<close> to \<open>1.0\<close>; and for every custom input string the resolved multiplier is
  a float strictly greater than 0.  (The float \<open>1.15\<close> is the binary64 value nearest to
  115/100, see \<open>float_1_15\<close>.)
\<close>

theorem parse_speed_resolves:
  "parse_speed ''2.0x'' custom = Inr (Fin 2)
   \<and> parse_speed custom_label ''1.15x'' = Inr (py_of_real (115 / 100))
   \<and> parse_speed custom_label ''abc'' = Inr (Fin 1)
   \<and> parse_speed custom_label ''-3'' = Inr (Fin 1)
   \<and> (\<exists>v. parse_speed custom_label custom = Inr v \<and> py_gt v (Fin 0))"
proof -
  have 1: "parse_speed ''2.0x'' custom = Inr (Fin 2)"
    by (simp add: parse_speed_def parse_defs custom_label_def py_of_real_2)
  have "(1 / 4096 :: real) \<le> 115 / 100" "(115 / 100 :: real) \<le> 4" by simp_all
  from py_of_real_coarse [OF this] obtain v where
    v: "py_of_real (115 / 100) = Fin v" "115 / 100 * (9999 / 10000) \<le> v" by blast
  then have "py_gt (py_of_real (115 / 100)) (Fin 0)" by simp
  then have 2: "parse_speed custom_label ''1.15x'' = Inr (py_of_real (115 / 100))"
    by (simp add: parse_speed_def parse_defs)
  have 3: "parse_speed custom_label ''abc'' = Inr (Fin 1)"
    by (simp add: parse_speed_def parse_defs)
  have "\<not> py_gt (py_of_real (- 3)) (Fin 0)" by (rule py_of_real_nonpos) simp
  then have 4: "parse_speed custom_label ''-3'' = Inr (Fin 1)"
    by (simp add: parse_speed_def parse_defs)
  have 5: "\<exists>v. parse_speed custom_label custom = Inr v \<and> py_gt v (Fin 0)"
    by (simp add: parse_speed_def split: sum.splits)
  from 1 2 3 4 5 show ?thesis by blast
qed

section \<open>Properties of the Command Builder\<close>












section \<open>Properties of the Probe Adapter\<close>

lemma has_audio_stream_raises:
  assumes "run_cmd sys st (ffprobe_cmd path) = (Inl e, st1)"
  shows "has_audio_stream sys st path = (Inl e, st1)"
  using assms by (simp add: has_audio_stream_def)

lemma has_audio_stream_returns:
  assumes "run_cmd sys st (ffprobe_cmd path) = (Inr (code, out, err), st1)"
  shows "\<exists>b. has_audio_stream sys st path = (Inr b, st1)
           \<and> (code \<noteq> 0 \<longrightarrow> \<not> b)
           \<and> ((\<exists>e. json_loads sys out = Inl e) \<longrightarrow> \<not> b)
           \<and> (\<forall>d. json_loads sys out = Inr d \<longrightarrow> (\<forall>kvs. d \<noteq> JDict kvs) \<longrightarrow> \<not> b)"
proof (cases "code \<noteq> 0")
  case True
  then show ?thesis using assms by (auto simp: has_audio_stream_def)
next
  case False
  show ?thesis
  proof (cases "probe_body sys out")
    case (Inl e)
    then show ?thesis using assms False by (auto simp: has_audio_stream_def)
  next
    case (Inr b)
    then have "\<exists>d kvs. json_loads sys out = Inr d \<and> d = JDict kvs"
      by (auto simp: probe_body_def py_get_def split: sum.splits json.splits)
    then show ?thesis using assms False Inr by (auto simp: has_audio_stream_def)
  qed
qed

text \<open>
  Claim C2, amended.  \<open>has_audio_stream\<close> raises exactly when \<open>run_cmd\<close> raises (the probe
  could not be started, or its output not read), and then it raises that exception.
  Whenever the probe ran, the adapter returns a boolean, and it returns \<open>False\<close> if the exit
  code is not zero, if \<open>json.loads\<close> rejects the output, or if the output is not a JSON
  object.
\<close>

theorem has_audio_stream_fail_closed:
  "(\<forall>e st1. run_cmd sys st (ffprobe_cmd path) = (Inl e, st1)
        \<longrightarrow> has_audio_stream sys st path = (Inl e, st1))
   \<and> (\<forall>code out err st1. run_cmd sys st (ffprobe_cmd path) = (Inr (code, out, err), st1)
        \<longrightarrow> (\<exists>b. has_audio_stream sys st path = (Inr b, st1)
              \<and> (code \<noteq> 0 \<longrightarrow> \<not> b)
              \<and> ((\<exists>e. json_loads sys out = Inl e) \<longrightarrow> \<not> b)
              \<and> (\<forall>d. json_loads sys out = Inr d \<longrightarrow> (\<forall>kvs. d \<noteq> JDict kvs) \<longrightarrow> \<not> b)))"
  using has_audio_stream_raises has_audio_stream_returns by blast

theorem has_audio_stream_fail_closed_witness:
  "run_cmd failing_probe_sys ((), []) (ffprobe_cmd ''a.mov'')
     = (Inr (1, [], ''No such file''), ((), [Spawn (ffprobe_cmd ''a.mov'')]))
   \<and> has_audio_stream failing_probe_sys ((), []) ''a.mov''
     = (Inr False, ((), [Spawn (ffprobe_cmd ''a.mov'')]))"
proof -
  have r: "run_cmd failing_probe_sys ((), []) (ffprobe_cmd ''a.mov'')
     = (Inr (1, [], ''No such file''), ((), [Spawn (ffprobe_cmd ''a.mov'')]))"
    by (simp add: run_cmd_def failing_probe_sys_def demo_sys_def ffprobe_cmd_def)
  from has_audio_stream_fail_closed [of failing_probe_sys "((), [])" "''a.mov''"] r
  show ?thesis by auto
qed

text \<open>
  Claim C2 as stated says the adapter never raises.  \<open>run_cmd\<close> is called outside the
  \<open>try\<close> block: for a path with a NUL character \<open>Popen\<close> raises \<open>ValueError\<close>, and the
  adapter passes it on to its caller.
\<close>

theorem has_audio_stream_raises_on_nul:
  "has_audio_stream demo_sys ((), []) [CHR ''a'', CHR 0x00, CHR ''b'']
     = (Inl (ValueError ''embedded null byte''), ((), []))"
  by (simp add: has_audio_stream_def run_cmd_def ffprobe_cmd_def)

section \<open>Properties of the Batch Runner\<close>

lemma progress_counts_append [simp]:
  "progress_counts (xs @ ys) = progress_counts xs @ progress_counts ys"
  by (induction xs rule: progress_counts.induct) simp_all



lemma log_trace [simp]: "snd (log st msg) = snd st @ [Log msg]"
  by (simp add: log_def)





















lemma run_loop_step:
  assumes "process_task sys self idx tot task st = Some (None, st')"
  shows "run_loop sys self idx tot (task # rest) st = run_loop sys self (Suc idx) tot rest st'"
  using assms by simp

















text \<open>The worker the interface builds for the custom speed \<open>inf\<close>.\<close>

lemma converter_worker_inf:
  "converter_worker [(''/in/a.mov'', ''/out/a_ppt.mp4'')] ''Most Compatible (Baseline L3.1, 30fps)''
       custom_label ''inf'' False True
     = Inr (demo_worker\<lparr>w_speed := PInf\<rparr>)"
  by (simp add: converter_worker_def PROFILES_def parse_speed_def parse_defs py_gt_def py_lt_def
      demo_worker_def baseline_profile_def)


end
